theory Spec2Isabelle
  imports Main
begin

section \<open>Media::Clip: the data model of media\_clip\_reader.h\<close>

text \<open>
  C++ integer division and remainder truncate towards zero, while \<open>div\<close> and
  \<open>mod\<close> on \<open>int\<close> round towards minus infinity. The slot formulas of the
  reader are read with the C++ operators.
\<close>

definition c_div :: "int \<Rightarrow> int \<Rightarrow> int" where
  "c_div a b = sgn a * sgn b * (\<bar>a\<bar> div \<bar>b\<bar>)"

definition c_mod :: "int \<Rightarrow> int \<Rightarrow> int" where
  "c_mod a b = sgn a * (\<bar>a\<bar> mod \<bar>b\<bar>)"

text \<open>
  The step counter is a \<open>QAtomicInt\<close>, a 32-bit signed integer. Its values are
  kept as \<open>int\<close>; \<open>int32\<close> is the two's complement value that a sum has in
  32 bits, so an addition that leaves the range wraps around.
\<close>

definition int32 :: "int \<Rightarrow> int" where
  "int32 x = (x + 2147483648) mod 4294967296 - 2147483648"

datatype State = Reading | Error | Finished

datatype Mode = Gif | Video

text \<open>
  The declaration of \<open>ImageRoundRadius\<close> is outside the given sources; the header
  only names its enumerator \<open>None\<close>. The other enumerators are kept apart by a number.
\<close>

datatype ImageRoundRadius = RadiusNone | RadiusOther nat

record FrameRequest =
  factor :: int
  framew :: int
  frameh :: int
  outerw :: int
  outerh :: int
  radius :: ImageRoundRadius

definition valid :: "FrameRequest \<Rightarrow> bool" where
  "valid req = (factor req > 0)"

text \<open>A default-constructed \<open>FrameRequest\<close>: the in-class initialisers.\<close>

definition FrameRequest_default :: FrameRequest where
  "FrameRequest_default =
     \<lparr>factor = 0, framew = 0, frameh = 0, outerw = 0, outerh = 0, radius = RadiusNone\<rparr>"

text \<open>
  \<open>enum ReaderSteps\<close>: an unscoped enumeration whose enumerators are compared with
  the \<open>int\<close> read from the step counter; \<open>ReaderSteps_value\<close> is that conversion.
\<close>

datatype ReaderSteps =
  WaitingForDimensionsStep | WaitingForRequestStep | WaitingForFirstFrameStep

fun ReaderSteps_value :: "ReaderSteps \<Rightarrow> int" where
  "ReaderSteps_value WaitingForDimensionsStep = -3"
| "ReaderSteps_value WaitingForRequestStep = -2"
| "ReaderSteps_value WaitingForFirstFrameStep = -1"

text \<open>Image payloads are opaque here: a null image or some pixel data.\<close>

datatype QImage = QImage_null | QImage_data "nat list"

type_synonym QPixmap = QImage

record Frame =
  pix :: QPixmap
  original :: QImage
  request :: FrameRequest
  displayed :: int
  positionMs :: int

definition Frame_default :: Frame where
  "Frame_default =
     \<lparr>pix = QImage_null, original = QImage_null, request = FrameRequest_default,
      displayed = 0, positionMs = 0\<rparr>"

definition clear :: "Frame \<Rightarrow> Frame" where
  "clear f = f\<lparr>pix := QImage_null, original := QImage_null\<rparr>"

text \<open>
  The members of \<open>Reader\<close> that hold data (the callback and the pointer to
  \<open>ReaderPrivate\<close> are left out). \<open>frames\<close> is the array \<open>_frames[3]\<close>.
\<close>

record Reader =
  mode :: Mode
  state :: State
  playId :: nat
  hasAudio :: bool
  durationMs :: int
  seekPositionMs :: int
  width :: int
  height :: int
  step :: int
  frames :: "Frame list"
  autoPausedGif :: int
  videoPauseRequest :: int
  threadIndex :: int
  autoplay :: bool

text \<open>
  A Reader right after construction. The constructor's body is outside the given
  sources: the members it receives or computes (\<open>mode\<close>, \<open>seekMs\<close>, the play id and
  the thread index) are parameters, every other member has the in-class initialiser
  of the header.
\<close>

definition Reader_init :: "Mode \<Rightarrow> int \<Rightarrow> nat \<Rightarrow> int \<Rightarrow> Reader" where
  "Reader_init m seekMs pid thread =
     \<lparr>mode = m, state = Reading, playId = pid, hasAudio = False, durationMs = 0,
      seekPositionMs = seekMs, width = 0, height = 0,
      step = ReaderSteps_value WaitingForDimensionsStep,
      frames = [Frame_default, Frame_default, Frame_default],
      autoPausedGif = 0, videoPauseRequest = 0, threadIndex = thread,
      autoplay = False\<rparr>"

definition started :: "Reader \<Rightarrow> bool" where
  "started r =
     (let s = step r
      in (s = ReaderSteps_value WaitingForFirstFrameStep) \<or> (s \<ge> 0))"

text \<open>
  \<open>currentDisplayed\<close> calls \<open>frameToShow\<close>, which the header only declares. The
  call is a parameter \<open>fts\<close>: the frame it returns, or \<open>None\<close> for the null
  pointer.
\<close>

definition currentDisplayed :: "(Reader \<Rightarrow> Frame option) \<Rightarrow> Reader \<Rightarrow> bool" where
  "currentDisplayed fts r =
     (case fts r of Some frame \<Rightarrow> displayed frame \<noteq> 0 | None \<Rightarrow> True)"

subsection \<open>The step state machine\<close>

text \<open>
  Modelled from the spec: the bodies of \<open>frameToShow\<close>, \<open>frameToWrite\<close>,
  \<open>moveToNextShow\<close> and \<open>moveToNextWrite\<close> are missing (the header declares them).
  The slot formulas are those of the spec and of the comment above \<open>_step\<close>:
  show \<open>((step + 1) / 2) % 3\<close>, write \<open>((step + 3) / 2) % 3\<close>, computed
  on the 32-bit value read from the counter: the sums wrap around, the division
  and the remainder truncate.
\<close>

definition showIndex :: "int \<Rightarrow> int" where
  "showIndex s = c_mod (c_div (int32 (s + 1)) 2) 3"

definition writeIndex :: "int \<Rightarrow> int" where
  "writeIndex s = c_mod (c_div (int32 (s + 3)) 2) 3"

text \<open>Reading \<open>_frames[i]\<close>: there are three slots, no other index names one.\<close>

definition slot :: "Frame list \<Rightarrow> int \<Rightarrow> Frame option" where
  "slot fs i = (if 0 \<le> i \<and> i < 3 \<and> nat i < length fs then Some (fs ! nat i) else None)"

text \<open>
  Modelled from the spec: \<open>frameToShow\<close> returns the slot at \<open>showIndex\<close> if its
  content is valid for the current request, else null; a slot whose request differs
  from the live request is not ready. The live request belongs to the worker, so
  it is an argument.
\<close>

definition frameToShow :: "FrameRequest \<Rightarrow> Reader \<Rightarrow> Frame option" where
  "frameToShow live r =
     (case slot (frames r) (showIndex (step r)) of
        None \<Rightarrow> None
      | Some frame \<Rightarrow> if request frame = live then Some frame else None)"

text \<open>
  Modelled from the spec: \<open>frameToWrite\<close> returns the slot at \<open>writeIndex\<close> for
  the worker to fill.
\<close>

definition frameToWrite :: "Reader \<Rightarrow> Frame option" where
  "frameToWrite r = slot (frames r) (writeIndex (step r))"

text \<open>
  Modelled from the spec: \<open>moveToNextShow\<close> and \<open>moveToNextWrite\<close> each increment
  the step counter by one. The counter has 32 bits, so the increment of
  \<open>2^31 - 1\<close> wraps around to \<open>- 2^31\<close>. The comment above \<open>_step\<close> gives 0-5 as
  the values of the counter at work; that is one period of both slot formulas (see
  \<open>slot_indices_period\<close> below), and the spec does not say whether or where the
  counter is reduced to it.
\<close>

definition moveToNextShow :: "Reader \<Rightarrow> Reader" where
  "moveToNextShow r = r\<lparr>step := int32 (step r + 1)\<rparr>"

definition moveToNextWrite :: "Reader \<Rightarrow> Reader" where
  "moveToNextWrite r = r\<lparr>step := int32 (step r + 1)\<rparr>"

datatype Move = NextShow | NextWrite

fun move :: "Move \<Rightarrow> Reader \<Rightarrow> Reader" where
  "move NextShow r = moveToNextShow r"
| "move NextWrite r = moveToNextWrite r"

text \<open>A sequence of calls, the first of the list first.\<close>

fun moves :: "Move list \<Rightarrow> Reader \<Rightarrow> Reader" where
  "moves [] r = r"
| "moves (m # ms) r = moves ms (move m r)"

section \<open>chat\_helpers/message\_field.cpp: mention tags in transport form\<close>

text \<open>
  A \<open>QString\<close> is modelled as a \<open>string\<close>. Every character the functions below
  look at is ASCII.
\<close>

definition startsWith :: "string \<Rightarrow> string \<Rightarrow> bool" where
  "startsWith s p = (take (length p) s = p)"

text \<open>
  \<open>\d\<close> of a \<open>QRegularExpression\<close> built without the Unicode-properties option:
  the ASCII digits.
\<close>

definition is_digit :: "char \<Rightarrow> bool" where
  "is_digit c = (let n = (of_char c :: nat) in 48 \<le> n \<and> n \<le> 57)"

definition digit_char :: "nat \<Rightarrow> char" where
  "digit_char d = char_of (48 + d)"

definition digit_value :: "char \<Rightarrow> nat" where
  "digit_value c = of_char c - 48"

text \<open>\<open>QString::number(int)\<close>: the decimal digits, after a minus sign when negative.\<close>

fun decimal :: "nat \<Rightarrow> string" where
  "decimal n = (if n < 10 then [digit_char n] else decimal (n div 10) @ [digit_char (n mod 10)])"

declare decimal.simps [simp del]

definition QString_number :: "int \<Rightarrow> string" where
  "QString_number n = (if n < 0 then CHR ''-'' # decimal (nat (- n)) else decimal (nat n))"

definition decimal_value :: "string \<Rightarrow> nat" where
  "decimal_value ds = foldl (\<lambda>acc c. 10 * acc + digit_value c) 0 ds"

text \<open>
  \<open>QStringRef::toInt()\<close> on a capture of \<open>\d+\<close>, a non-empty run of ASCII digits
  (its only argument in this file): the number read in base ten, and 0 when the
  conversion fails because the number does not fit a 32-bit \<open>int\<close>.
\<close>

definition toInt :: "string \<Rightarrow> int" where
  "toInt ds = (if decimal_value ds \<le> 2147483647 then int (decimal_value ds) else 0)"

text \<open>
  The assertion \<open>$\<close> of a pattern compiled with no option holds at the end of the
  subject and also just before a line feed that is the subject's last character.
  The argument is what is left of the subject at the current position.
\<close>

definition at_dollar :: "string \<Rightarrow> bool" where
  "at_dollar rest = (rest = [] \<or> rest = [CHR 0x0A])"

text \<open>
  An attempt to match \<open>:(\d+)$\<close> at the head of \<open>s\<close>. \<open>\d+\<close> is greedy and takes
  the whole run of digits; giving digits back cannot help, since \<open>$\<close> would then
  stand before a digit. The result is the text of the whole match and of group 1.
\<close>

definition match_here :: "string \<Rightarrow> (string \<times> string) option" where
  "match_here s =
     (case s of
        [] \<Rightarrow> None
      | c # rest \<Rightarrow>
          if c = CHR '':'' then
            (let ds = takeWhile is_digit rest
             in if ds \<noteq> [] \<and> at_dollar (dropWhile is_digit rest)
                then Some (c # ds, ds) else None)
          else None)"

text \<open>
  \<open>QRegularExpression(":(\\d+)$").match(s)\<close>: the leftmost position where the
  pattern matches. The pattern needs two characters at least, so there is no match
  at the end of the subject.
\<close>

fun regex_search :: "string \<Rightarrow> (string \<times> string) option" where
  "regex_search [] = None"
| "regex_search (c # cs) =
     (case match_here (c # cs) of Some m \<Rightarrow> Some m | None \<Rightarrow> regex_search cs)"

text \<open>
  \<open>AuthSession::CurrentUserId()\<close> is outside the given sources: the current user id
  is the argument \<open>uid\<close> of both conversions.
\<close>

definition ConvertTagToMimeTag :: "int \<Rightarrow> string \<Rightarrow> string" where
  "ConvertTagToMimeTag uid tagId =
     (if startsWith tagId ''mention://'' then tagId @ CHR '':'' # QString_number uid
      else tagId)"

definition mimeTagFromTag :: "int \<Rightarrow> string \<Rightarrow> string" where
  "mimeTagFromTag uid tagId = ConvertTagToMimeTag uid tagId"

definition tagFromMimeTag :: "int \<Rightarrow> string \<Rightarrow> string" where
  "tagFromMimeTag uid mimeTag =
     (if startsWith mimeTag ''mention://'' then
        (case regex_search mimeTag of
           None \<Rightarrow> []
         | Some (whole, group1) \<Rightarrow>
             if toInt group1 \<noteq> uid then []
             else take (length mimeTag - length whole) mimeTag)
      else mimeTag)"

section \<open>Properties of the reader\<close>

subsection \<open>Auxiliary facts about the slot arithmetic\<close>

lemma c_div_nonneg: "0 \<le> a \<Longrightarrow> 0 < b \<Longrightarrow> c_div a b = a div b"
  by (cases "a = 0") (simp_all add: c_div_def)

lemma c_mod_nonneg: "0 \<le> a \<Longrightarrow> c_mod a b = a mod \<bar>b\<bar>"
  by (cases "a = 0") (simp_all add: c_mod_def)

lemma int32_id: "- 2147483648 \<le> x \<Longrightarrow> x \<le> 2147483647 \<Longrightarrow> int32 x = x"
  by (simp add: int32_def)

lemma showIndex_nonneg:
  "0 \<le> s \<Longrightarrow> s \<le> 2147483644 \<Longrightarrow> showIndex s = ((s + 1) div 2) mod 3"
  by (simp add: showIndex_def int32_id c_div_nonneg c_mod_nonneg pos_imp_zdiv_nonneg_iff)

lemma writeIndex_nonneg:
  "0 \<le> s \<Longrightarrow> s \<le> 2147483644 \<Longrightarrow> writeIndex s = ((s + 1) div 2 + 1) mod 3"
proof -
  assume s: "0 \<le> s" "s \<le> 2147483644"
  have "(s + 3) div 2 = (s + 1) div 2 + 1" by simp
  with s show ?thesis
    by (simp add: writeIndex_def int32_id c_div_nonneg c_mod_nonneg pos_imp_zdiv_nonneg_iff)
qed



lemma slot_index_range:
  "0 \<le> s \<Longrightarrow> s \<le> 2147483644 \<Longrightarrow> showIndex s \<in> {0, 1, 2} \<and> writeIndex s \<in> {0, 1, 2}"
proof -
  assume s: "0 \<le> s" "s \<le> 2147483644"
  have "k mod 3 = 0 \<or> k mod 3 = 1 \<or> k mod 3 = 2" for k :: int by presburger
  with s show ?thesis by (simp add: showIndex_nonneg writeIndex_nonneg)
qed

text \<open>
  Both slot formulas have period 6: the values 0-5 that the header's comment
  gives for the counter at work stand for every counter value free of overflow.
\<close>

lemma slot_indices_period:
  assumes "0 \<le> s" and "s + 6 \<le> 2147483644"
  shows "showIndex (s + 6) = showIndex s \<and> writeIndex (s + 6) = writeIndex s"
proof -
  have k: "(s + 6 + 1) div 2 = (s + 1) div 2 + 3" by simp
  have m1: "(x + 3) mod 3 = x mod 3" for x :: int by simp
  have m2: "(x + 3 + 1) mod 3 = (x + 1) mod 3" for x :: int
    using m1 [of "x + 1"] by (simp add: add.commute add.left_commute)
  from assms have "showIndex (s + 6) = ((s + 6 + 1) div 2) mod 3"
    by (intro showIndex_nonneg) simp_all
  also have "\<dots> = ((s + 1) div 2) mod 3" unfolding k by (rule m1)
  also from assms have "\<dots> = showIndex s" by (simp add: showIndex_nonneg)
  finally have sh: "showIndex (s + 6) = showIndex s" .
  from assms have "writeIndex (s + 6) = ((s + 6 + 1) div 2 + 1) mod 3"
    by (intro writeIndex_nonneg) simp_all
  also have "\<dots> = ((s + 1) div 2 + 1) mod 3" unfolding k by (rule m2)
  also from assms have "\<dots> = writeIndex s" by (simp add: writeIndex_nonneg)
  finally have "writeIndex (s + 6) = writeIndex s" .
  with sh show ?thesis by simp
qed

text \<open>Past the range the sums wrap around: the indices at the largest counter value.\<close>

lemma slot_indices_at_max: "showIndex 2147483647 = - 1 \<and> writeIndex 2147483647 = 0"
  by (simp add: showIndex_def writeIndex_def int32_def c_div_def c_mod_def)



lemma frames_move: "frames (move m r) = frames r"
  by (cases m) (simp_all add: moveToNextShow_def moveToNextWrite_def)

lemma frames_moves: "frames (moves ms r) = frames r"
  by (induction ms arbitrary: r) (simp_all add: frames_move)

lemma UNIV_ReaderSteps:
  "(UNIV :: ReaderSteps set) =
     {WaitingForDimensionsStep, WaitingForRequestStep, WaitingForFirstFrameStep}"
proof -
  have "v \<in> {WaitingForDimensionsStep, WaitingForRequestStep, WaitingForFirstFrameStep}"
    for v by (cases v) simp_all
  then show ?thesis by blast
qed

subsection \<open>Claims about the reader\<close>




text \<open>
  C2. \<open>frameToShow\<close> never returns a slot whose stored request differs from the
  live \<open>FrameRequest\<close>: whatever it returns carries the live request, and when the
  slot at the show index carries another request the result is null.
\<close>

theorem frameToShow_live_request:
  "(frameToShow live r = Some frame \<longrightarrow> request frame = live) \<and>
   (slot (frames r) (showIndex (step r)) = Some frame \<and> request frame \<noteq> live \<longrightarrow>
      frameToShow live r = None)"
proof (cases "slot (frames r) (showIndex (step r))")
  case None
  then show ?thesis by (simp add: frameToShow_def)
next
  case (Some f)
  then show ?thesis by (simp add: frameToShow_def) blast
qed

theorem frameToShow_live_request_witness:
  "frameToShow FrameRequest_default (Reader_init Gif 0 1 0\<lparr>step := 0\<rparr>) = Some Frame_default \<and>
   request Frame_default = FrameRequest_default \<and>
   slot (frames (Reader_init Gif 0 1 0\<lparr>step := 0\<rparr>))
     (showIndex (step (Reader_init Gif 0 1 0\<lparr>step := 0\<rparr>))) = Some Frame_default \<and>
   request Frame_default \<noteq> FrameRequest_default\<lparr>factor := 2\<rparr> \<and>
   frameToShow (FrameRequest_default\<lparr>factor := 2\<rparr>) (Reader_init Gif 0 1 0\<lparr>step := 0\<rparr>) = None"
proof -
  let ?r = "Reader_init Gif 0 1 0\<lparr>step := 0\<rparr>"
  let ?live = "FrameRequest_default\<lparr>factor := 2\<rparr>"
  have ix: "showIndex 0 = 0"
    by (simp add: showIndex_def int32_def c_div_def c_mod_def)
  have st: "step ?r = 0" by simp
  have fr: "frames ?r = [Frame_default, Frame_default, Frame_default]"
    by (simp add: Reader_init_def)
  have sl: "slot (frames ?r) (showIndex (step ?r)) = Some Frame_default"
    unfolding st ix fr by (simp add: slot_def)
  have rq: "request Frame_default = FrameRequest_default"
    by (simp add: Frame_default_def)
  have "factor (request Frame_default) \<noteq> factor ?live"
    by (simp add: rq FrameRequest_default_def)
  then have ne: "request Frame_default \<noteq> ?live" by metis
  have sh: "frameToShow FrameRequest_default ?r = Some Frame_default"
    unfolding frameToShow_def sl by (simp add: rq)
  from frameToShow_live_request [of ?live ?r Frame_default] sl ne
  have "frameToShow ?live ?r = None" by blast
  moreover
  from frameToShow_live_request [of FrameRequest_default ?r Frame_default] sh
  have "request Frame_default = FrameRequest_default" by blast
  ultimately show ?thesis using sh sl ne by blast
qed

text \<open>
  C5. \<open>started()\<close> depends on the value of the step counter only, and it is true
  exactly when that value is \<open>WaitingForFirstFrameStep\<close> (-1) or is at least 0.
\<close>

theorem started_iff:
  "(started r \<longleftrightarrow> step r = -1 \<or> 0 \<le> step r) \<and>
   (step r' = step r \<longrightarrow> started r' = started r)"
  by (simp add: started_def Let_def)

theorem started_iff_witness:
  "started (Reader_init Gif 0 1 0\<lparr>step := -1\<rparr>) \<and>
   step (Reader_init Video 7 2 1\<lparr>step := -1, autoplay := True\<rparr>) =
     step (Reader_init Gif 0 1 0\<lparr>step := -1\<rparr>) \<and>
   started (Reader_init Video 7 2 1\<lparr>step := -1, autoplay := True\<rparr>)"
  using started_iff
    [of "Reader_init Gif 0 1 0\<lparr>step := -1\<rparr>"
        "Reader_init Video 7 2 1\<lparr>step := -1, autoplay := True\<rparr>"]
  by simp

text \<open>
  C6. The pre-playback sentinels of the step counter are exactly
  \<open>WaitingForDimensionsStep = -3\<close>, \<open>WaitingForRequestStep = -2\<close> and
  \<open>WaitingForFirstFrameStep = -1\<close>, and the step counter of a freshly constructed
  Reader is \<open>WaitingForDimensionsStep\<close>.
\<close>

theorem sentinel_values:
  "ReaderSteps_value WaitingForDimensionsStep = -3 \<and>
   ReaderSteps_value WaitingForRequestStep = -2 \<and>
   ReaderSteps_value WaitingForFirstFrameStep = -1 \<and>
   range ReaderSteps_value = {-3, -2, -1} \<and>
   step (Reader_init m seekMs pid thread) = ReaderSteps_value WaitingForDimensionsStep \<and>
   step (Reader_init m seekMs pid thread) = -3"
  by (simp add: UNIV_ReaderSteps Reader_init_def)

text \<open>
  C7. \<open>FrameRequest::valid()\<close> is true exactly when the scale factor is greater
  than zero; two requests with the same factor are equally valid, whatever their
  other fields.
\<close>

theorem valid_iff:
  "(valid req \<longleftrightarrow> 0 < factor req) \<and>
   (factor req' = factor req \<longrightarrow> valid req' = valid req)"
  by (simp add: valid_def)

theorem valid_iff_witness:
  "valid (FrameRequest_default\<lparr>factor := 2\<rparr>) \<and>
   factor \<lparr>factor = 2, framew = 100, frameh = 80, outerw = 120, outerh = 90,
           radius = RadiusOther 1\<rparr> = factor (FrameRequest_default\<lparr>factor := 2\<rparr>) \<and>
   valid \<lparr>factor = 2, framew = 100, frameh = 80, outerw = 120, outerh = 90,
          radius = RadiusOther 1\<rparr> \<and>
   \<not> valid FrameRequest_default"
  using valid_iff
    [of "FrameRequest_default\<lparr>factor := 2\<rparr>"
        "\<lparr>factor = 2, framew = 100, frameh = 80, outerw = 120, outerh = 90,
          radius = RadiusOther 1\<rparr>"]
    valid_iff [of FrameRequest_default FrameRequest_default]
  by (simp add: FrameRequest_default_def)

text \<open>
  C10. When \<open>frameToShow()\<close> returns null, \<open>currentDisplayed()\<close> returns true;
  otherwise it returns whether the \<open>displayed\<close> flag of the returned slot is
  nonzero. This holds whatever \<open>frameToShow\<close> computes.
\<close>

theorem currentDisplayed_cases:
  "(fts r = None \<longrightarrow> currentDisplayed fts r) \<and>
   (\<forall>frame. fts r = Some frame \<longrightarrow> currentDisplayed fts r = (displayed frame \<noteq> 0))"
  by (simp add: currentDisplayed_def)

theorem currentDisplayed_cases_witness:
  "currentDisplayed (\<lambda>r. None) (Reader_init Gif 0 1 0) \<and>
   \<not> currentDisplayed (\<lambda>r. Some (Frame_default\<lparr>displayed := 0\<rparr>)) (Reader_init Gif 0 1 0) \<and>
   currentDisplayed (\<lambda>r. Some (Frame_default\<lparr>displayed := 1\<rparr>)) (Reader_init Gif 0 1 0)"
  using currentDisplayed_cases [of "\<lambda>r. None" "Reader_init Gif 0 1 0"]
    currentDisplayed_cases
      [of "\<lambda>r. Some (Frame_default\<lparr>displayed := 0\<rparr>)" "Reader_init Gif 0 1 0"]
    currentDisplayed_cases
      [of "\<lambda>r. Some (Frame_default\<lparr>displayed := 1\<rparr>)" "Reader_init Gif 0 1 0"]
  by simp

section \<open>Properties of the mention-tag conversions\<close>

subsection \<open>Auxiliary facts about digits and the pattern\<close>

lemma is_digit_digit_char: "d < 10 \<Longrightarrow> is_digit (digit_char d)"
  by (simp add: is_digit_def digit_char_def)

lemma digit_value_digit_char: "d < 10 \<Longrightarrow> digit_value (digit_char d) = d"
  by (simp add: digit_value_def digit_char_def)

lemma not_is_digit_colon: "\<not> is_digit CHR '':''"
  by (simp add: is_digit_def)

lemma decimal_digits: "list_all is_digit (decimal n) \<and> decimal n \<noteq> []"
proof (induction n rule: decimal.induct)
  case (1 n)
  show ?case
  proof (cases "n < 10")
    case True
    then show ?thesis by (simp add: decimal.simps [of n] is_digit_digit_char)
  next
    case False
    with 1 show ?thesis by (simp add: decimal.simps [of n] is_digit_digit_char)
  qed
qed

lemma decimal_value_snoc:
  "decimal_value (ds @ [c]) = 10 * decimal_value ds + digit_value c"
  by (simp add: decimal_value_def)

lemma decimal_value_decimal: "decimal_value (decimal n) = n"
proof (induction n rule: decimal.induct)
  case (1 n)
  show ?case
  proof (cases "n < 10")
    case True
    then show ?thesis
      by (simp add: decimal.simps [of n] decimal_value_def digit_value_digit_char)
  next
    case False
    with 1 have "decimal_value (decimal (n div 10)) = n div 10" by simp
    with False show ?thesis
      by (simp add: decimal.simps [of n] decimal_value_snoc digit_value_digit_char)
  qed
qed

lemma toInt_QString_number:
  "0 \<le> uid \<Longrightarrow> uid \<le> 2147483647 \<Longrightarrow> toInt (QString_number uid) = uid"
proof -
  assume "0 \<le> uid" and "uid \<le> 2147483647"
  then have "nat uid \<le> 2147483647" by linarith
  with \<open>0 \<le> uid\<close> show ?thesis
    by (simp add: toInt_def QString_number_def decimal_value_decimal)
qed

lemma QString_number_digits:
  "0 \<le> uid \<Longrightarrow> list_all is_digit (QString_number uid) \<and> QString_number uid \<noteq> []"
  by (simp add: QString_number_def decimal_digits)

lemma at_dollar_short: "at_dollar rest \<Longrightarrow> length rest \<le> 1"
  by (auto simp: at_dollar_def)

lemma match_here_digits:
  "ds \<noteq> [] \<Longrightarrow> list_all is_digit ds \<Longrightarrow> match_here (CHR '':'' # ds) = Some (CHR '':'' # ds, ds)"
  by (cases ds) (simp_all add: match_here_def at_dollar_def Let_def list_all_iff)

lemma match_here_inner:
  assumes "ds \<noteq> []"
  shows "match_here (c # t @ CHR '':'' # ds) = None"
proof -
  let ?rest = "t @ CHR '':'' # ds"
  have "dropWhile is_digit ?rest =
          (if \<forall>x \<in> set t. is_digit x then CHR '':'' # ds else dropWhile is_digit t @ CHR '':'' # ds)"
    by (simp add: dropWhile_append not_is_digit_colon)
  with assms have "2 \<le> length (dropWhile is_digit ?rest)"
    by (cases ds) (simp_all split: if_splits)
  then have "\<not> at_dollar (dropWhile is_digit ?rest)"
    using at_dollar_short by fastforce
  then show ?thesis
    by (simp add: match_here_def Let_def)
qed

lemma regex_search_suffix:
  assumes "ds \<noteq> []" and "list_all is_digit ds"
  shows "regex_search (t @ CHR '':'' # ds) = Some (CHR '':'' # ds, ds)"
proof (induction t)
  case Nil
  from assms show ?case by (simp add: match_here_digits)
next
  case (Cons c t)
  from assms(1) have "match_here (c # t @ CHR '':'' # ds) = None"
    by (rule match_here_inner)
  with Cons show ?case by simp
qed

lemma startsWith_append: "startsWith t p \<Longrightarrow> startsWith (t @ x) p"
proof -
  assume h: "startsWith t p"
  then have "length (take (length p) t) = length p"
    by (simp add: startsWith_def)
  then have "length p \<le> length t" by simp
  with h show ?thesis by (simp add: startsWith_def)
qed

lemma tagFromMimeTag_strip:
  assumes "startsWith t ''mention://''" and "ds \<noteq> []" and "list_all is_digit ds"
    and "toInt ds = uid"
  shows "tagFromMimeTag uid (t @ CHR '':'' # ds) = t"
proof -
  from assms(1) have "startsWith (t @ CHR '':'' # ds) ''mention://''"
    by (rule startsWith_append)
  moreover from assms(2,3) have "regex_search (t @ CHR '':'' # ds) = Some (CHR '':'' # ds, ds)"
    by (rule regex_search_suffix)
  ultimately show ?thesis using assms(4)
    by (simp add: tagFromMimeTag_def)
qed

lemma tagFromMimeTag_other:
  "\<not> startsWith s ''mention://'' \<Longrightarrow> tagFromMimeTag uid s = s"
  by (simp add: tagFromMimeTag_def)

text \<open>
  What a match says about the subject, and the behaviour of \<open>tagFromMimeTag\<close> on
  subjects that do not end in a line feed: the suffix \<open>:<digits>\<close> is removed when
  \<open>toInt\<close> of the digits is the user id (\<open>tagFromMimeTag_strip\<close>), and the result
  is empty when there is no such suffix.
\<close>

lemma match_here_SomeD:
  assumes "match_here s = Some (w, g)"
  shows "\<exists>rest. s = w @ rest \<and> w = CHR '':'' # g \<and> g \<noteq> [] \<and> list_all is_digit g \<and> at_dollar rest"
proof (cases s)
  case Nil
  with assms show ?thesis by (simp add: match_here_def)
next
  case (Cons c cs)
  with assms have c: "c = CHR '':''" and g: "g = takeWhile is_digit cs" and w: "w = c # g"
    and ne: "g \<noteq> []" and dollar: "at_dollar (dropWhile is_digit cs)"
    by (auto simp: match_here_def Let_def split: if_splits)
  have "list_all is_digit g"
    unfolding g list_all_iff by (blast dest: set_takeWhileD)
  moreover have "s = w @ dropWhile is_digit cs"
    by (simp add: Cons w g)
  ultimately show ?thesis using c w ne dollar by blast
qed

lemma regex_search_SomeD:
  "regex_search s = Some (w, g) \<Longrightarrow>
     \<exists>t rest. s = t @ w @ rest \<and> w = CHR '':'' # g \<and> g \<noteq> [] \<and> list_all is_digit g \<and> at_dollar rest"
proof (induction s)
  case Nil
  then show ?case by simp
next
  case (Cons c cs)
  show ?case
  proof (cases "match_here (c # cs)")
    case None
    with Cons.prems have "regex_search cs = Some (w, g)" by simp
    from Cons.IH [OF this] obtain t rest where
      "cs = t @ w @ rest" "w = CHR '':'' # g" "g \<noteq> []" "list_all is_digit g" "at_dollar rest"
      by blast
    then have "c # cs = (c # t) @ w @ rest" by simp
    with \<open>w = CHR '':'' # g\<close> \<open>g \<noteq> []\<close> \<open>list_all is_digit g\<close> \<open>at_dollar rest\<close>
    show ?thesis by blast
  next
    case (Some m)
    with Cons.prems have "match_here (c # cs) = Some (w, g)" by simp
    from match_here_SomeD [OF this] obtain rest where
      "c # cs = [] @ w @ rest" "w = CHR '':'' # g" "g \<noteq> []" "list_all is_digit g" "at_dollar rest"
      by auto
    then show ?thesis by blast
  qed
qed

lemma tagFromMimeTag_empty_otherwise:
  assumes "startsWith s ''mention://''"
    and "last s \<noteq> CHR 0x0A"
    and "\<not> (\<exists>t ds. s = t @ CHR '':'' # ds \<and> ds \<noteq> [] \<and> list_all is_digit ds \<and> toInt ds = uid)"
  shows "tagFromMimeTag uid s = []"
proof (cases "regex_search s")
  case None
  with assms(1) show ?thesis by (simp add: tagFromMimeTag_def)
next
  case (Some m)
  obtain w g where m: "m = (w, g)" by (cases m)
  from Some m have "regex_search s = Some (w, g)" by simp
  from regex_search_SomeD [OF this] obtain t rest where
    s: "s = t @ w @ rest" and w: "w = CHR '':'' # g" and g: "g \<noteq> []" "list_all is_digit g"
    and rest: "at_dollar rest"
    by blast
  have "rest = []"
  proof (rule ccontr)
    assume "rest \<noteq> []"
    with rest have "rest = [CHR 0x0A]" by (simp add: at_dollar_def)
    with s have "last s = CHR 0x0A" by simp
    with assms(2) show False by contradiction
  qed
  with s w have "s = t @ CHR '':'' # g" by simp
  with assms(3) g have "toInt g \<noteq> uid" by blast
  with assms(1) Some m show ?thesis by (simp add: tagFromMimeTag_def)
qed

subsection \<open>Claims about the conversions\<close>

text \<open>
  C8. The claim: a string beginning with \<open>mention://\<close> is mapped to the empty
  string unless it ends in \<open>:<digits>\<close> naming the current user, and then to the
  string without that suffix. The code anchors its pattern with \<open>$\<close>, which also
  holds before a final line feed, and then cuts as many characters from the end as
  the match is long: for the current user 123, the string
  \<open>mention://user.1.2:123\<close> followed by a line feed does not end in digits, yet
  the result is \<open>mention://user.1.2:\<close> and not the empty string.
\<close>

theorem tagFromMimeTag_trailing_newline:
  "tagFromMimeTag 123 (''mention://user.1.2:123'' @ [CHR 0x0A]) = ''mention://user.1.2:''"
  by (simp add: tagFromMimeTag_def startsWith_def match_here_def is_digit_def
      at_dollar_def toInt_def decimal_value_def digit_value_def Let_def)

text \<open>
  C9. With the current user id fixed, a valid id (not negative, within 32 bits),
  \<open>tagFromMimeTag\<close> undoes \<open>mimeTagFromTag\<close> on every tag: a tag beginning with
  \<open>mention://\<close> gets the suffix \<open>:<user id>\<close> and loses exactly that suffix again,
  any other tag passes through both unchanged.
\<close>

theorem tag_roundtrip:
  assumes "0 \<le> uid" and "uid \<le> 2147483647"
  shows "tagFromMimeTag uid (mimeTagFromTag uid tagId) = tagId"
proof (cases "startsWith tagId ''mention://''")
  case True
  from assms have "toInt (QString_number uid) = uid" by (rule toInt_QString_number)
  with True QString_number_digits [OF assms(1)]
  have "tagFromMimeTag uid (tagId @ CHR '':'' # QString_number uid) = tagId"
    by (simp add: tagFromMimeTag_strip)
  with True show ?thesis by (simp add: mimeTagFromTag_def ConvertTagToMimeTag_def)
next
  case False
  then show ?thesis
    by (simp add: mimeTagFromTag_def ConvertTagToMimeTag_def tagFromMimeTag_other)
qed

theorem tag_roundtrip_witness:
  "(0::int) \<le> 1234567 \<and> (1234567::int) \<le> 2147483647 \<and>
   tagFromMimeTag 1234567 (mimeTagFromTag 1234567 ''mention://user.1.2'') = ''mention://user.1.2'' \<and>
   tagFromMimeTag 1234567 (mimeTagFromTag 1234567 ''https://telegram.org'') = ''https://telegram.org''"
  using tag_roundtrip [of 1234567 "''mention://user.1.2''"]
    tag_roundtrip [of 1234567 "''https://telegram.org''"]
  by simp

end
